theory Spec2Isabelle
  imports Complex_Main "HOL-Library.Multiset"
begin

section \<open>The arXiv topic search aggregator\<close>

text \<open>
  A shallow embedding of \<^verbatim>\<open>src/config/config.py\<close> and
  \<^verbatim>\<open>src/src/fetcher/arxiv_search.py\<close>.

  Conventions of the embedding:
  \<^item> a timezone-aware \<^verbatim>\<open>datetime\<close> in UTC is an instant, an integer number of
    microseconds since the epoch, and a \<^verbatim>\<open>timedelta\<close> is a number of microseconds;
    the arithmetic of line 80 raises \<^verbatim>\<open>OverflowError\<close> outside the ranges of these
    two types, as Python does;
  \<^item> \<^verbatim>\<open>datetime.now(timezone.utc)\<close> is an argument \<open>now\<close> of \<open>search_papers\<close>;
  \<^item> a Python \<^verbatim>\<open>float\<close> that is only stored and tested for truth is a \<open>real\<close>;
  \<^item> the \<^verbatim>\<open>arxiv\<close> library is the collaborator: the generator returned by
    \<^verbatim>\<open>Client.results\<close> is a finite \<open>stream\<close> that yields raw results and may
    end by raising;
  \<^item> the dictionary \<^verbatim>\<open>all_papers\<close> is an association list in insertion order, the
    order in which \<^verbatim>\<open>dict.values()\<close> enumerates;
  \<^item> logging has no effect on any result and is left out.
\<close>

subsection \<open>Strings: \<^verbatim>\<open>str.split\<close> and \<^verbatim>\<open>str.replace\<close>\<close>

text \<open>
  \<^verbatim>\<open>s.split(sep)\<close> for a separator of one character, the only form the source uses
  (\<^verbatim>\<open>"/"\<close> and \<^verbatim>\<open>"v"\<close>). The result is never empty; the inner \<open>[]\<close> case is
  unreachable.
\<close>

fun str_split :: "char \<Rightarrow> string \<Rightarrow> string list" where
  "str_split sep [] = [Nil]"
| "str_split sep (c # cs) =
     (if c = sep then [] # str_split sep cs
      else (case str_split sep cs of [] \<Rightarrow> [c # Nil] | w # ws \<Rightarrow> (c # w) # ws))"

text \<open>
  \<^verbatim>\<open>s.replace(old, new)\<close>: every non-overlapping occurrence of \<open>old\<close>, scanning from the
  left. For the empty pattern Python puts \<open>new\<close> before every character and at the end.
\<close>

function str_replace :: "string \<Rightarrow> string \<Rightarrow> string \<Rightarrow> string" where
  "str_replace old new s =
     (if old = [] then new @ concat (map (\<lambda>c. c # new) s)
      else if s = [] then []
      else if take (length old) s = old then new @ str_replace old new (drop (length old) s)
      else hd s # str_replace old new (tl s))"
  by pat_completeness auto
termination
  by (relation "measure (\<lambda>(old, new, s). length s)") auto

declare str_replace.simps [simp del]

subsection \<open>Configuration (\<^verbatim>\<open>config.py\<close>)\<close>

record Settings =
  arxiv_max_results :: int
  arxiv_delay_seconds :: real
  arxiv_hours_back :: int
  database_url :: string

text \<open>The field defaults of the class \<^verbatim>\<open>Settings\<close>; the environment may override them.\<close>

definition Settings_defaults :: Settings where
  "Settings_defaults =
     \<lparr>arxiv_max_results = 30, arxiv_delay_seconds = 3.0, arxiv_hours_back = 24,
      database_url = ''postgresql://localhost:5432/arxiv_digest''\<rparr>"

subsection \<open>Data model\<close>

type_synonym instant = int

text \<open>\<^verbatim>\<open>arxiv.Result.Author\<close>: \<^verbatim>\<open>str(a)\<close> is the author's name.\<close>

datatype Author = Author (name: string)

definition str_Author :: "Author \<Rightarrow> string" where
  "str_Author a = name a"

text \<open>\<^verbatim>\<open>arxiv.Result\<close>, the raw result: the attributes \<open>search_papers\<close> reads.\<close>

record Result =
  entry_id :: string
  title :: string
  authors :: "Author list"
  summary :: string
  pdf_url :: string
  published :: instant
  categories :: "string list"

record ArxivPaper =
  arxiv_id :: string
  title :: string
  authors :: "string list"
  abstract :: string
  pdf_url :: string
  published :: instant
  categories :: "string list"

datatype SortCriterion = Relevance | LastUpdatedDate | SubmittedDate

datatype SortOrder = Ascending | Descending

record Search =
  query :: string
  max_results :: int
  sort_by :: SortCriterion
  sort_order :: SortOrder

text \<open>\<^verbatim>\<open>arxiv.Client\<close> as the constructor configures it.\<close>

record Client =
  page_size :: int
  delay_seconds :: real
  num_retries :: int

record ArxivClient =
  max_results :: int
  delay_seconds :: real
  hours_back :: int
  client :: Client

subsection \<open>The collaborator\<close>

text \<open>
  What \<open>search_papers\<close> can end with instead of a value: a failure raised by the
  \<^verbatim>\<open>arxiv\<close> library, with its information, or the \<^verbatim>\<open>OverflowError\<close> of the date
  arithmetic.
\<close>

datatype failure = ArxivError string | OverflowError

text \<open>
  The state of a result generator: finished, about to yield a result, or about to raise.
\<close>

datatype stream = Exhausted | Yield Result stream | Raise failure

text \<open>
  \<^verbatim>\<open>self._client.results(search)\<close>: the generator the collaborator returns for a
  search, which may depend on the searches it has received before in this run.
\<close>

type_synonym collaborator = "Search list \<Rightarrow> Search \<Rightarrow> stream"

subsection \<open>\<^verbatim>\<open>ArxivClient.__init__\<close>\<close>

text \<open>\<^verbatim>\<open>x or d\<close> for an optional number: \<^verbatim>\<open>None\<close> and zero are falsy.\<close>

definition or_int :: "int option \<Rightarrow> int \<Rightarrow> int" where
  "or_int x d = (case x of None \<Rightarrow> d | Some v \<Rightarrow> if v = 0 then d else v)"

definition or_float :: "real option \<Rightarrow> real \<Rightarrow> real" where
  "or_float x d = (case x of None \<Rightarrow> d | Some v \<Rightarrow> if v = 0 then d else v)"

definition init :: "Settings \<Rightarrow> int option \<Rightarrow> real option \<Rightarrow> int option \<Rightarrow> ArxivClient" where
  "init settings max_results_arg delay_seconds_arg hours_back_arg =
     (let mr = or_int max_results_arg (arxiv_max_results settings);
          ds = or_float delay_seconds_arg (arxiv_delay_seconds settings);
          hb = or_int hours_back_arg (arxiv_hours_back settings)
      in \<lparr>max_results = mr, delay_seconds = ds, hours_back = hb,
           client = \<lparr>page_size = mr, Client.delay_seconds = ds, num_retries = 3\<rparr>\<rparr>)"

subsection \<open>\<^verbatim>\<open>ArxivClient.search_papers\<close>\<close>

text \<open>
  \<^verbatim>\<open>timedelta(hours=h)\<close> for an integer \<open>h\<close>: the duration is normalised to days,
  seconds and microseconds, and the number of days, \<open>h div 24\<close>, must have a magnitude
  of at most 999999999.
\<close>

definition timedelta_hours :: "int \<Rightarrow> failure + int" where
  "timedelta_hours h =
     (if \<bar>h div 24\<bar> > 999999999 then Inl OverflowError else Inr (h * 3600000000))"

text \<open>
  \<^verbatim>\<open>datetime.min\<close> and \<^verbatim>\<open>datetime.max\<close>, the first microsecond of the year 1 and the
  last of the year 9999, in microseconds since the epoch.
\<close>

definition datetime_min :: instant where
  "datetime_min = - 62135596800000000"

definition datetime_max :: instant where
  "datetime_max = 253402300799999999"

text \<open>\<^verbatim>\<open>t - d\<close> for a datetime and a timedelta: the result must be a datetime.\<close>

definition datetime_sub :: "instant \<Rightarrow> int \<Rightarrow> failure + instant" where
  "datetime_sub t d =
     (if datetime_min \<le> t - d \<and> t - d \<le> datetime_max then Inr (t - d)
      else Inl OverflowError)"

text \<open>
  Line 80: \<^verbatim>\<open>datetime.now(timezone.utc) - timedelta(hours=self.hours_back)\<close>, for the
  value \<open>now\<close> of the clock.
\<close>

definition cutoff_time :: "instant \<Rightarrow> int \<Rightarrow> failure + instant" where
  "cutoff_time now hours =
     (case timedelta_hours hours of
        Inl e \<Rightarrow> Inl e
      | Inr d \<Rightarrow> datetime_sub now d)"

text \<open>
  Line 103: \<^verbatim>\<open>entry_id.split("/")[-1].replace("abs/", "").split("v")[0]\<close>. Neither
  index can fail, since \<open>str_split\<close> never returns the empty list.
\<close>

definition extract_arxiv_id :: "string \<Rightarrow> string" where
  "extract_arxiv_id eid =
     hd (str_split CHR ''v'' (str_replace ''abs/'' [] (last (str_split CHR ''/'' eid))))"

text \<open>Lines 110 to 118: the record built from a raw result.\<close>

definition make_paper :: "string \<Rightarrow> Result \<Rightarrow> ArxivPaper" where
  "make_paper aid result =
     \<lparr>arxiv_id = aid,
      title = Result.title result,
      authors = map str_Author (Result.authors result),
      abstract = str_replace [CHR 0x0A] '' '' (summary result),
      pdf_url = Result.pdf_url result,
      published = Result.published result,
      categories = Result.categories result\<rparr>"

text \<open>The dictionary \<^verbatim>\<open>all_papers\<close>: membership, assignment and \<^verbatim>\<open>values()\<close>.\<close>

type_synonym paper_dict = "(string \<times> ArxivPaper) list"

definition dict_contains :: "paper_dict \<Rightarrow> string \<Rightarrow> bool" where
  "dict_contains d k = (k \<in> set (map fst d))"

definition dict_set :: "paper_dict \<Rightarrow> string \<Rightarrow> ArxivPaper \<Rightarrow> paper_dict" where
  "dict_set d k v =
     (if dict_contains d k then map (\<lambda>(k', v'). if k' = k then (k', v) else (k', v')) d
      else d @ [(k, v)])"

definition dict_values :: "paper_dict \<Rightarrow> ArxivPaper list" where
  "dict_values d = map snd d"

text \<open>
  Lines 102 to 121, the loop body for a result that is not too old, on the pair of
  \<^verbatim>\<open>all_papers\<close> and \<^verbatim>\<open>topic_count\<close>.
\<close>

definition add_result :: "paper_dict \<times> nat \<Rightarrow> Result \<Rightarrow> paper_dict \<times> nat" where
  "add_result st result =
     (case st of (all_papers, topic_count) \<Rightarrow>
        let aid = extract_arxiv_id (entry_id result) in
        if dict_contains all_papers aid then (all_papers, topic_count)
        else (dict_set all_papers aid (make_paper aid result), topic_count + 1))"

text \<open>
  Lines 96 to 121, the loop over one topic's generator. It returns the failure raised
  by the generator, or the dictionary and \<^verbatim>\<open>topic_count\<close>; and with either the state
  in which it leaves the generator (what it has not consumed). A generator that has
  raised is finished.
\<close>

fun consume ::
  "instant \<Rightarrow> stream \<Rightarrow> paper_dict \<times> nat \<Rightarrow> (failure + paper_dict \<times> nat) \<times> stream" where
  "consume cutoff Exhausted st = (Inr st, Exhausted)"
| "consume cutoff (Raise e) st = (Inl e, Exhausted)"
| "consume cutoff (Yield result rest) st =
     (if Result.published result < cutoff then (Inr st, rest)
      else consume cutoff rest (add_result st result))"

text \<open>Lines 87 to 92: the search issued for a topic.\<close>

definition search_for :: "ArxivClient \<Rightarrow> string \<Rightarrow> Search" where
  "search_for self topic =
     \<lparr>query = topic, Search.max_results = max_results self,
      sort_by = SubmittedDate, sort_order = Descending\<rparr>"

text \<open>
  Lines 84 to 128, the loop over the topics. \<open>calls\<close> is the collaborator's side of
  the run: each search issued so far, with the state in which its generator was left.
\<close>

fun search_topics ::
  "collaborator \<Rightarrow> ArxivClient \<Rightarrow> instant \<Rightarrow> string list \<Rightarrow> paper_dict \<Rightarrow>
     (Search \<times> stream) list \<Rightarrow> (failure + paper_dict) \<times> (Search \<times> stream) list" where
  "search_topics results self cutoff [] all_papers calls = (Inr all_papers, calls)"
| "search_topics results self cutoff (topic # topics) all_papers calls =
     (let search = search_for self topic in
      case consume cutoff (results (map fst calls) search) (all_papers, 0) of
        (Inl e, left) \<Rightarrow> (Inl e, calls @ [(search, left)])
      | (Inr (all_papers', topic_count), left) \<Rightarrow>
          search_topics results self cutoff topics all_papers' (calls @ [(search, left)]))"

text \<open>
  \<^verbatim>\<open>sorted(xs, key=key, reverse=True)\<close>: Python reverses, sorts stably in ascending
  order and reverses again.
\<close>

definition sorted_reverse :: "('a \<Rightarrow> int) \<Rightarrow> 'a list \<Rightarrow> 'a list" where
  "sorted_reverse key xs = rev (sort_key key (rev xs))"

text \<open>
  \<open>search_papers\<close>: the value returned or the failure propagated, and the calls the
  collaborator has received. A failure of line 80 ends the call before the loop.
\<close>

definition search_papers ::
  "collaborator \<Rightarrow> ArxivClient \<Rightarrow> instant \<Rightarrow> string list \<Rightarrow>
     (failure + ArxivPaper list) \<times> (Search \<times> stream) list" where
  "search_papers results self now topics =
     (case cutoff_time now (hours_back self) of
        Inl e \<Rightarrow> (Inl e, [])
      | Inr cutoff \<Rightarrow>
          (case search_topics results self cutoff topics [] [] of
             (Inl e, calls) \<Rightarrow> (Inl e, calls)
           | (Inr all_papers, calls) \<Rightarrow>
               (Inr (sorted_reverse ArxivPaper.published (dict_values all_papers)), calls)))"

definition search_single_topic ::
  "collaborator \<Rightarrow> ArxivClient \<Rightarrow> instant \<Rightarrow> string \<Rightarrow>
     (failure + ArxivPaper list) \<times> (Search \<times> stream) list" where
  "search_single_topic results self now q = search_papers results self now [q]"

subsection \<open>Vocabulary for the properties\<close>

text \<open>The results a generator yields when it is consumed to its end.\<close>

fun items :: "stream \<Rightarrow> Result list" where
  "items Exhausted = []"
| "items (Raise e) = []"
| "items (Yield r s) = r # items s"

text \<open>The generator that yields the results of a list and goes on as the given one.\<close>

fun emit :: "Result list \<Rightarrow> stream \<Rightarrow> stream" where
  "emit [] s = s"
| "emit (r # rs) s = Yield r (emit rs s)"

definition recent :: "instant \<Rightarrow> Result \<Rightarrow> bool" where
  "recent cutoff r = (cutoff \<le> Result.published r)"

definition newest_first :: "Result list \<Rightarrow> bool" where
  "newest_first rs = sorted_wrt (\<lambda>a b. Result.published b \<le> Result.published a) rs"

definition newest_first_papers :: "ArxivPaper list \<Rightarrow> bool" where
  "newest_first_papers ps =
     sorted_wrt (\<lambda>a b. ArxivPaper.published b \<le> ArxivPaper.published a) ps"

text \<open>
  The results of a generator that pass the recency check before the loop over it ends:
  those before its first result older than the cutoff, its end, or its failure.
\<close>

fun accepted :: "instant \<Rightarrow> stream \<Rightarrow> Result list" where
  "accepted cutoff Exhausted = []"
| "accepted cutoff (Raise e) = []"
| "accepted cutoff (Yield r s) = (if recent cutoff r then r # accepted cutoff s else [])"

text \<open>
  The accepted results of a run in the order of the topics and, within a topic, of its
  generator; \<open>hist\<close> is the list of searches already issued.
\<close>

fun encountered ::
  "collaborator \<Rightarrow> ArxivClient \<Rightarrow> instant \<Rightarrow> string list \<Rightarrow> Search list \<Rightarrow> Result list" where
  "encountered results self cutoff [] hist = []"
| "encountered results self cutoff (topic # topics) hist =
     accepted cutoff (results hist (search_for self topic))
     @ encountered results self cutoff topics (hist @ [search_for self topic])"

text \<open>The dictionary after the loop body has run on a result that is not too old.\<close>

definition offer :: "paper_dict \<Rightarrow> Result \<Rightarrow> paper_dict" where
  "offer d r = fst (add_result (d, 0) r)"

text \<open>
  The identifier as the specification words it: the trailing path segment, without an
  \<^verbatim>\<open>abs/\<close> prefix if it has one, without a trailing \<^verbatim>\<open>v\<close> followed by digits if it
  has one.
\<close>

definition is_digit :: "char \<Rightarrow> bool" where
  "is_digit c = (c \<in> set ''0123456789'')"

definition strip_abs_prefix :: "string \<Rightarrow> string" where
  "strip_abs_prefix s = (if take 4 s = ''abs/'' then drop 4 s else s)"

definition strip_version_suffix :: "string \<Rightarrow> string" where
  "strip_version_suffix s =
     (let ds = takeWhile is_digit (rev s); r = dropWhile is_digit (rev s)
      in if ds \<noteq> [] \<and> r \<noteq> [] \<and> hd r = CHR ''v'' then rev (tl r) else s)"

definition spec_arxiv_id :: "string \<Rightarrow> string" where
  "spec_arxiv_id eid =
     strip_version_suffix (strip_abs_prefix (last (str_split CHR ''/'' eid)))"

subsection \<open>Example runs\<close>

text \<open>
  A client with a window of one hour, called two hours after the epoch: the cutoff is
  3600000000. Three topics: the first generator yields two recent results, an old one,
  and would raise after it; the second yields a result as recent as the newest of the
  first, and another version of a paper of the first topic, published exactly at the
  cutoff; any other topic yields one recent result and raises.
\<close>

definition demo_result :: "string \<Rightarrow> string \<Rightarrow> instant \<Rightarrow> Result" where
  "demo_result eid ttl t =
     \<lparr>entry_id = eid, Result.title = ttl,
      Result.authors = [Author ''Ada L'', Author ''Alan T''],
      summary = [CHR ''a'', CHR 0x0A, CHR ''b''], Result.pdf_url = ''http://arxiv.org/pdf/x'',
      Result.published = t, Result.categories = [''cs.AI'']\<rparr>"

definition demo_self :: ArxivClient where
  "demo_self = init Settings_defaults None None (Some 1)"

definition demo_now :: instant where
  "demo_now = 7200000000"

definition demo_agents :: stream where
  "demo_agents =
     Yield (demo_result ''http://arxiv.org/abs/2401.00001v2'' ''One'' 3600000002)
       (Yield (demo_result ''http://arxiv.org/abs/2401.00002v1'' ''Two'' 3600000001)
          (Yield (demo_result ''http://arxiv.org/abs/2312.00009v3'' ''Old'' 3599999999)
             (Raise (ArxivError ''page 2''))))"

definition demo_reasoning :: stream where
  "demo_reasoning =
     Yield (demo_result ''http://arxiv.org/abs/2401.00003v1'' ''Three'' 3600000002)
       (Yield (demo_result ''http://arxiv.org/abs/2401.00001v1'' ''One again'' 3600000000)
          Exhausted)"

definition demo_flaky :: stream where
  "demo_flaky =
     Yield (demo_result ''http://arxiv.org/abs/2401.00004v1'' ''Four'' 3600000005)
       (Raise (ArxivError ''HTTP 503''))"

definition demo_results :: collaborator where
  "demo_results hist q =
     (if query q = ''agents'' then demo_agents
      else if query q = ''reasoning'' then demo_reasoning
      else demo_flaky)"

definition demo_paper :: "string \<Rightarrow> string \<Rightarrow> instant \<Rightarrow> ArxivPaper" where
  "demo_paper aid ttl t =
     \<lparr>arxiv_id = aid, title = ttl, authors = [''Ada L'', ''Alan T''],
      abstract = ''a b'', pdf_url = ''http://arxiv.org/pdf/x'',
      published = t, categories = [''cs.AI'']\<rparr>"

text \<open>A client whose window of 20000000 hours reaches back before the year 1.\<close>

definition far_self :: ArxivClient where
  "far_self = init Settings_defaults None None (Some 20000000)"

text \<open>The dictionary after the first topic, after both, and the value returned.\<close>

definition demo_dict1 :: paper_dict where
  "demo_dict1 =
     [(''2401.00001'', demo_paper ''2401.00001'' ''One'' 3600000002),
      (''2401.00002'', demo_paper ''2401.00002'' ''Two'' 3600000001)]"

definition demo_dict :: paper_dict where
  "demo_dict = demo_dict1 @ [(''2401.00003'', demo_paper ''2401.00003'' ''Three'' 3600000002)]"

definition demo_papers :: "ArxivPaper list" where
  "demo_papers =
     [demo_paper ''2401.00001'' ''One'' 3600000002,
      demo_paper ''2401.00003'' ''Three'' 3600000002,
      demo_paper ''2401.00002'' ''Two'' 3600000001]"

definition demo_calls1 :: "(Search \<times> stream) list" where
  "demo_calls1 = [(search_for demo_self ''agents'', Raise (ArxivError ''page 2''))]"

definition demo_calls :: "(Search \<times> stream) list" where
  "demo_calls = demo_calls1 @ [(search_for demo_self ''reasoning'', Exhausted)]"

text \<open>The dictionary and the calls after the topic \<open>reasoning\<close> alone.\<close>

definition demo_dict2 :: paper_dict where
  "demo_dict2 =
     [(''2401.00003'', demo_paper ''2401.00003'' ''Three'' 3600000002),
      (''2401.00001'', demo_paper ''2401.00001'' ''One again'' 3600000000)]"

definition demo_calls2 :: "(Search \<times> stream) list" where
  "demo_calls2 = [(search_for demo_self ''reasoning'', Exhausted)]"

text \<open>
  Two different papers with old-style identifiers, whose entry ids end in the same
  segment, in one sorted stream that ends with an old result.
\<close>

definition twin_a :: Result where
  "twin_a = demo_result ''http://arxiv.org/abs/hep-th/0301001v1'' ''Strings'' 3600000002"

definition twin_b :: Result where
  "twin_b = demo_result ''http://arxiv.org/abs/math/0301001v1'' ''Sheaves'' 3600000001"

definition twin_old :: Result where
  "twin_old = demo_result ''http://arxiv.org/abs/math/0212001v1'' ''Old'' 3599999999"

definition twin_stream :: stream where
  "twin_stream = Yield twin_a (Yield twin_b (Yield twin_old Exhausted))"

definition twin_results :: collaborator where
  "twin_results hist q = twin_stream"

text \<open>Two topics whose streams hold the same result, older than the cutoff.\<close>

definition stale :: Result where
  "stale = demo_result ''http://arxiv.org/abs/1234.5678v2'' ''Stale'' 3599999999"

definition stale_results :: collaborator where
  "stale_results hist q = Yield stale Exhausted"

section \<open>Properties\<close>

subsection \<open>Splitting and replacing\<close>

lemma str_split_not_Nil: "str_split sep s \<noteq> []"
  by (induction s) (auto split: list.splits)

lemma str_split_no_sep: "sep \<notin> set s \<Longrightarrow> str_split sep s = [s]"
  by (induction s) auto

lemma str_split_append:
  "str_split sep (xs @ sep # ys) = str_split sep xs @ str_split sep ys"
  by (induction xs) (auto split: list.splits simp: str_split_not_Nil)

lemma hd_str_split: "hd (str_split sep s) = takeWhile (\<lambda>c. c \<noteq> sep) s"
  by (induction s) (auto split: list.splits simp: str_split_not_Nil)

lemma last_str_split:
  "last (str_split sep s) = rev (takeWhile (\<lambda>c. c \<noteq> sep) (rev s))"
proof (cases "sep \<in> set s")
  case False
  then have tw: "takeWhile (\<lambda>c. c \<noteq> sep) (rev s) = rev s"
    by (intro takeWhile_eq_all_conv [THEN iffD2]) auto
  show ?thesis unfolding tw by (simp add: str_split_no_sep False)
next
  case True
  then obtain xs ys where s: "s = xs @ sep # ys" and ys: "sep \<notin> set ys"
    by (meson split_list_last)
  have "last (str_split sep s) = ys"
    by (simp add: s str_split_append str_split_no_sep ys)
  moreover have "rev (takeWhile (\<lambda>c. c \<noteq> sep) (rev s)) = ys"
    using ys by (simp add: s takeWhile_append)
  ultimately show ?thesis by simp
qed

lemma last_str_split_no_sep: "sep \<notin> set (last (str_split sep s))"
  unfolding last_str_split using set_takeWhileD by fastforce

lemma str_replace_absent:
  "c \<in> set old \<Longrightarrow> c \<notin> set s \<Longrightarrow> str_replace old new s = s"
proof (induction old new s rule: str_replace.induct)
  case (1 old new s)
  show ?case
  proof (cases s)
    case Nil
    with "1.prems" show ?thesis by (subst str_replace.simps) auto
  next
    case (Cons a as)
    have ne: "old \<noteq> []" using "1.prems" by auto
    have np: "take (length old) s \<noteq> old"
    proof
      assume "take (length old) s = old"
      then have "set old \<subseteq> set s" by (metis set_take_subset)
      with "1.prems" show False by auto
    qed
    have "str_replace old new (tl s) = tl s"
      using "1.IH"(2) [OF ne _ np] "1.prems" Cons by auto
    then show ?thesis using ne np Cons by (subst str_replace.simps) simp
  qed
qed

lemma str_replace_char:
  "str_replace [a] [b] s = map (\<lambda>c. if c = a then b else c) s"
proof (induction s)
  case Nil
  show ?case by (subst str_replace.simps) simp
next
  case (Cons c cs)
  then show ?case by (subst str_replace.simps) simp
qed

lemma extract_arxiv_id_eq:
  "extract_arxiv_id eid =
     takeWhile (\<lambda>c. c \<noteq> CHR ''v'') (rev (takeWhile (\<lambda>c. c \<noteq> CHR ''/'') (rev eid)))"
proof -
  have "str_replace ''abs/'' [] (last (str_split CHR ''/'' eid)) = last (str_split CHR ''/'' eid)"
    by (rule str_replace_absent [of "CHR ''/''"]) (simp_all add: last_str_split_no_sep)
  then show ?thesis
    by (simp add: extract_arxiv_id_def hd_str_split last_str_split)
qed


subsection \<open>The dictionary\<close>

lemma dict_contains_map_of: "dict_contains d k \<longleftrightarrow> map_of d k \<noteq> None"
  by (simp add: dict_contains_def map_of_eq_None_iff)

lemma add_result_fst:
  "fst (add_result (d, n) r) =
     (if dict_contains d (extract_arxiv_id (entry_id r)) then d
      else d @ [(extract_arxiv_id (entry_id r), make_paper (extract_arxiv_id (entry_id r)) r)])"
  by (simp add: add_result_def dict_set_def Let_def)

lemma fst_add_result: "fst (add_result st r) = offer (fst st) r"
  by (cases st) (simp add: offer_def add_result_fst)

lemma fst_foldl_add_result: "fst (foldl add_result st rs) = foldl offer (fst st) rs"
  by (induction rs arbitrary: st) (simp_all add: fst_add_result)

lemma offer_eq:
  "offer d r =
     (if map_of d (extract_arxiv_id (entry_id r)) \<noteq> None then d
      else d @ [(extract_arxiv_id (entry_id r), make_paper (extract_arxiv_id (entry_id r)) r)])"
  by (simp add: offer_def add_result_fst dict_contains_map_of)

lemma map_of_offer:
  "map_of (offer d r) k =
     (case map_of d k of Some v \<Rightarrow> Some v
      | None \<Rightarrow> if extract_arxiv_id (entry_id r) = k then Some (make_paper k r) else None)"
  by (auto simp: offer_eq map_add_def split: option.splits)

lemma map_of_foldl_offer:
  "map_of (foldl offer d rs) k =
     (case map_of d k of Some v \<Rightarrow> Some v
      | None \<Rightarrow> map_option (make_paper k) (find (\<lambda>r. extract_arxiv_id (entry_id r) = k) rs))"
proof (induction rs arbitrary: d)
  case Nil
  then show ?case by (simp split: option.splits)
next
  case (Cons r rs)
  have "map_of (foldl offer d (r # rs)) k = map_of (foldl offer (offer d r) rs) k" by simp
  also have "\<dots> = (case map_of (offer d r) k of Some v \<Rightarrow> Some v
      | None \<Rightarrow> map_option (make_paper k) (find (\<lambda>r. extract_arxiv_id (entry_id r) = k) rs))"
    by (rule Cons.IH)
  also have "\<dots> = (case map_of d k of Some v \<Rightarrow> Some v
      | None \<Rightarrow> map_option (make_paper k) (find (\<lambda>r. extract_arxiv_id (entry_id r) = k) (r # rs)))"
    by (simp add: map_of_offer split: option.splits)
  finally show ?case .
qed

lemma distinct_foldl_offer:
  "distinct (map fst d) \<Longrightarrow> distinct (map fst (foldl offer d rs))"
proof (induction rs arbitrary: d)
  case (Cons r rs)
  have "distinct (map fst (offer d r))"
    using Cons.prems by (auto simp: offer_eq map_of_eq_None_iff)
  from Cons.IH [OF this] show ?case by simp
qed simp

lemma filter_key_alist:
  "distinct (map fst d) \<Longrightarrow>
   filter (\<lambda>x. fst x = k) d = (case map_of d k of None \<Rightarrow> [] | Some v \<Rightarrow> [(k, v)])"
proof (induction d)
  case (Cons x d)
  obtain a b where x: "x = (a, b)" by (cases x)
  show ?case
  proof (cases "a = k")
    case True
    with Cons.prems x have "k \<notin> fst ` set d" by auto
    then have "filter (\<lambda>x. fst x = k) d = []" by (auto simp: filter_empty_conv)
    with True x show ?thesis by simp
  next
    case False
    with Cons x show ?thesis by simp
  qed
qed simp

lemma foldl_offer_entries:
  "(k, p) \<in> set (foldl offer d rs) \<Longrightarrow>
   (k, p) \<in> set d \<or> (\<exists>r\<in>set rs. k = extract_arxiv_id (entry_id r) \<and> p = make_paper k r)"
proof (induction rs arbitrary: d)
  case (Cons r rs)
  from Cons.prems have "(k, p) \<in> set (foldl offer (offer d r) rs)" by simp
  from Cons.IH [OF this] show ?case
    by (auto simp: offer_eq split: if_splits)
qed simp


subsection \<open>The loop over one generator\<close>

lemma consume_Inr:
  "consume cutoff s st = (Inr st', left) \<Longrightarrow> st' = foldl add_result st (accepted cutoff s)"
  by (induction s arbitrary: st) (auto simp: recent_def split: if_splits)

lemma consume_emit_old:
  "\<forall>r\<in>set pre. recent cutoff r \<Longrightarrow> \<not> recent cutoff old \<Longrightarrow>
   consume cutoff (emit pre (Yield old rest)) st = (Inr (foldl add_result st pre), rest)"
  by (induction pre arbitrary: st) (auto simp: recent_def)

lemma consume_emit_Raise:
  "\<forall>r\<in>set pre. recent cutoff r \<Longrightarrow>
   consume cutoff (emit pre (Raise e)) st = (Inl e, Exhausted)"
  by (induction pre arbitrary: st) (auto simp: recent_def)

lemma items_emit: "items (emit pre s) = pre @ items s"
  by (induction pre) auto

lemma first_old:
  "\<exists>r\<in>set (items s). \<not> recent cutoff r \<Longrightarrow>
   \<exists>old rest. s = emit (takeWhile (recent cutoff) (items s)) (Yield old rest) \<and> \<not> recent cutoff old"
proof (induction s)
  case (Yield r s)
  show ?case
  proof (cases "recent cutoff r")
    case True
    with Yield.prems have "\<exists>r\<in>set (items s). \<not> recent cutoff r" by auto
    from Yield.IH [OF this] True show ?thesis by auto
  next
    case False
    then show ?thesis by auto
  qed
qed auto

lemma newest_first_filter:
  "newest_first (pre @ old # later) \<Longrightarrow> \<forall>r\<in>set pre. recent cutoff r \<Longrightarrow> \<not> recent cutoff old \<Longrightarrow>
   filter (recent cutoff) (pre @ old # later) = pre"
  by (auto simp: newest_first_def sorted_wrt_append recent_def filter_empty_conv)

lemma set_accepted: "set (accepted cutoff s) \<subseteq> set (items s)"
  by (induction s) auto

lemma accepted_recent: "r \<in> set (accepted cutoff s) \<Longrightarrow> recent cutoff r"
  by (induction s) (auto split: if_splits)

subsection \<open>The loop over the topics\<close>

lemma search_topics_append:
  "search_topics results self cutoff (ts1 @ ts2) d c =
     (case search_topics results self cutoff ts1 d c of
        (Inl e, c') \<Rightarrow> (Inl e, c')
      | (Inr d', c') \<Rightarrow> search_topics results self cutoff ts2 d' c')"
  by (induction ts1 arbitrary: d c) (auto simp: Let_def split: prod.splits sum.splits)

lemma search_topics_Inr:
  "search_topics results self cutoff topics d c = (Inr d', c') \<Longrightarrow>
   d' = foldl offer d (encountered results self cutoff topics (map fst c))"
proof (induction topics arbitrary: d c)
  case Nil
  then show ?case by simp
next
  case (Cons t ts)
  let ?q = "search_for self t"
  obtain out left where c: "consume cutoff (results (map fst c) ?q) (d, 0) = (out, left)"
    by (cases "consume cutoff (results (map fst c) ?q) (d, 0)")
  show ?case
  proof (cases out)
    case (Inl e)
    with Cons.prems c show ?thesis by (simp add: Let_def)
  next
    case (Inr st)
    obtain d1 n where st: "st = (d1, n)" by (cases st)
    have d1: "d1 = foldl offer d (accepted cutoff (results (map fst c) ?q))"
      using consume_Inr [of cutoff "results (map fst c) ?q" "(d, 0)" st left] c Inr st
      by (metis fst_conv fst_foldl_add_result)
    have "search_topics results self cutoff ts d1 (c @ [(?q, left)]) = (Inr d', c')"
      using Cons.prems c Inr st by (simp add: Let_def)
    from Cons.IH [OF this] show ?thesis by (simp add: d1)
  qed
qed

lemma encountered_recent:
  "r \<in> set (encountered results self cutoff topics hist) \<Longrightarrow> recent cutoff r"
  by (induction topics arbitrary: hist) (auto dest: accepted_recent)

lemma encountered_items:
  "r \<in> set (encountered results self cutoff topics hist) \<Longrightarrow>
   \<exists>h t. t \<in> set topics \<and> r \<in> set (items (results h (search_for self t)))"
proof (induction topics arbitrary: hist)
  case Nil
  then show ?case by simp
next
  case (Cons t ts)
  from Cons.prems consider "r \<in> set (accepted cutoff (results hist (search_for self t)))"
    | "r \<in> set (encountered results self cutoff ts (hist @ [search_for self t]))" by auto
  then show ?case
  proof cases
    case 1
    then have "r \<in> set (items (results hist (search_for self t)))"
      using set_accepted by blast
    then show ?thesis by auto
  next
    case 2
    from Cons.IH [OF this] show ?thesis by auto
  qed
qed

lemma search_topics_calls:
  "search_topics results self cutoff topics d c = (Inr d', c') \<Longrightarrow>
   map fst c' = map fst c @ map (search_for self) topics"
proof (induction topics arbitrary: d c)
  case Nil
  then show ?case by simp
next
  case (Cons t ts)
  let ?q = "search_for self t"
  obtain out left where c: "consume cutoff (results (map fst c) ?q) (d, 0) = (out, left)"
    by (cases "consume cutoff (results (map fst c) ?q) (d, 0)")
  show ?case
  proof (cases out)
    case (Inl e)
    with Cons.prems c show ?thesis by (simp add: Let_def)
  next
    case (Inr st)
    obtain d1 n where st: "st = (d1, n)" by (cases st)
    have "search_topics results self cutoff ts d1 (c @ [(?q, left)]) = (Inr d', c')"
      using Cons.prems c Inr st by (simp add: Let_def)
    from Cons.IH [OF this] show ?thesis by simp
  qed
qed

subsection \<open>Sorting, and the value returned\<close>

lemma set_sorted_reverse: "set (sorted_reverse f xs) = set xs"
  by (simp add: sorted_reverse_def)

lemma distinct_map_sorted_reverse:
  "distinct (map g (sorted_reverse f xs)) = distinct (map g xs)"
  by (simp add: sorted_reverse_def distinct_map)

lemma newest_first_sorted_reverse:
  "newest_first_papers (sorted_reverse ArxivPaper.published xs)"
proof -
  have "sorted (map ArxivPaper.published (sort_key ArxivPaper.published (rev xs)))"
    by (rule sorted_sort_key)
  then have "sorted_wrt (\<lambda>a b. ArxivPaper.published a \<le> ArxivPaper.published b)
               (sort_key ArxivPaper.published (rev xs))"
    by (simp add: sorted_map)
  then show ?thesis
    by (simp add: newest_first_papers_def sorted_reverse_def sorted_wrt_rev)
qed

lemma filter_sorted_reverse:
  "filter P (sorted_reverse f xs) = sorted_reverse f (filter P xs)"
  by (simp add: sorted_reverse_def filter_sort flip: rev_filter)

lemma sorted_reverse_stable:
  "filter (\<lambda>y. f y = t) (sorted_reverse f xs) = filter (\<lambda>y. f y = t) xs"
  by (simp add: sorted_reverse_def sort_key_stable flip: rev_filter)

lemma sorted_reverse_short: "length xs \<le> 1 \<Longrightarrow> sorted_reverse f xs = xs"
  by (cases xs) (simp_all add: sorted_reverse_def)

lemma cutoff_time_Inr:
  "cutoff_time now hours = Inr cutoff \<Longrightarrow> cutoff = now - hours * 3600000000"
  by (auto simp: cutoff_time_def timedelta_hours_def datetime_sub_def split: if_splits)

lemma search_papers_Inr:
  assumes "fst (search_papers results self now topics) = Inr ps"
  shows "ps = sorted_reverse ArxivPaper.published (dict_values
           (foldl offer []
              (encountered results self (now - hours_back self * 3600000000) topics [])))"
proof (cases "cutoff_time now (hours_back self)")
  case (Inl e)
  with assms show ?thesis by (simp add: search_papers_def)
next
  case (Inr c)
  then have c: "c = now - hours_back self * 3600000000" by (rule cutoff_time_Inr)
  obtain out calls where st: "search_topics results self c topics [] [] = (out, calls)"
    by (cases "search_topics results self c topics [] []")
  show ?thesis
  proof (cases out)
    case (Inl e)
    with assms st Inr show ?thesis by (simp add: search_papers_def)
  next
    case out: (Inr d)
    with st have "d = foldl offer [] (encountered results self c topics [])"
      using search_topics_Inr [of results self c topics "[]" "[]" d calls] by simp
    with assms st Inr out show ?thesis by (simp add: search_papers_def c)
  qed
qed

lemma search_papers_returns:
  assumes "fst (search_papers results self now topics) = Inr ps"
  shows "\<exists>cutoff all_papers calls.
           cutoff_time now (hours_back self) = Inr cutoff
           \<and> search_topics results self cutoff topics [] [] = (Inr all_papers, calls)
           \<and> search_papers results self now topics = (Inr ps, calls)"
  using assms
  by (auto simp: search_papers_def split: sum.splits prod.splits)

lemma final_dict_entry:
  "(k, p) \<in> set (foldl offer [] rs) \<Longrightarrow>
   \<exists>r\<in>set rs. k = extract_arxiv_id (entry_id r) \<and> p = make_paper k r"
  using foldl_offer_entries [of k p "[]" rs] by simp

lemma final_dict_ids:
  "map arxiv_id (dict_values (foldl offer [] rs)) = map fst (foldl offer [] rs)"
proof -
  have "arxiv_id (snd x) = fst x" if "x \<in> set (foldl offer [] rs)" for x
  proof -
    obtain k p where x: "x = (k, p)" by (cases x)
    with that final_dict_entry [of k p rs] show ?thesis by (auto simp: make_paper_def)
  qed
  then show ?thesis by (simp add: dict_values_def)
qed

lemma make_paper_published: "ArxivPaper.published (make_paper k r) = Result.published r"
  by (simp add: make_paper_def)


subsection \<open>Example runs, evaluated\<close>

lemma demo_cutoff: "cutoff_time demo_now (hours_back demo_self) = Inr 3600000000"
  by code_simp

lemma demo_run: "search_papers demo_results demo_self demo_now [''agents'', ''reasoning'']
                   = (Inr demo_papers, demo_calls)"
  by code_simp

lemma demo_topics_run:
  "search_topics demo_results demo_self 3600000000
     [''agents'', ''reasoning''] [] [] = (Inr demo_dict, demo_calls)"
  by code_simp

lemma demo_first_topic_run:
  "search_topics demo_results demo_self 3600000000
     [''agents''] [] [] = (Inr demo_dict1, demo_calls1)"
  by code_simp

section \<open>The claims\<close>

subsection \<open>No duplicate identifiers\<close>

text \<open>
  C1. Whatever the topics and whatever the collaborator returns, when \<open>search_papers\<close>
  returns a sequence, no two records at different positions of it have the same
  \<open>arxiv_id\<close>.
\<close>

theorem search_papers_distinct_ids:
  assumes "fst (search_papers results self now topics) = Inr ps"
  shows "distinct (map arxiv_id ps)"
  unfolding search_papers_Inr [OF assms]
  by (simp add: distinct_map_sorted_reverse final_dict_ids distinct_foldl_offer)

theorem search_papers_distinct_ids_witness:
  "fst (search_papers demo_results demo_self demo_now [''agents'', ''reasoning'']) = Inr demo_papers
   \<and> distinct (map arxiv_id demo_papers)"
proof -
  have h: "fst (search_papers demo_results demo_self demo_now [''agents'', ''reasoning''])
             = Inr demo_papers"
    by (simp add: demo_run)
  from h search_papers_distinct_ids [OF h] show ?thesis by simp
qed

subsection \<open>Recency\<close>

text \<open>
  C2. Every record of the sequence returned by \<open>search_papers\<close> has a \<open>published\<close>
  instant at or after the cutoff of the call, \<open>now\<close> minus \<open>hours_back\<close> hours.
\<close>

theorem search_papers_recent:
  assumes "fst (search_papers results self now topics) = Inr ps" and "p \<in> set ps"
  shows "now - hours_back self * 3600000000 \<le> ArxivPaper.published p"
proof -
  let ?rs = "encountered results self (now - hours_back self * 3600000000) topics []"
  from assms(2) have "p \<in> snd ` set (foldl offer [] ?rs)"
    unfolding search_papers_Inr [OF assms(1)]
    by (simp add: set_sorted_reverse dict_values_def)
  then obtain k where "(k, p) \<in> set (foldl offer [] ?rs)" by force
  then obtain r where "r \<in> set ?rs" and "p = make_paper k r"
    using final_dict_entry by blast
  then show ?thesis
    using encountered_recent [of r] by (simp add: make_paper_published recent_def)
qed

theorem search_papers_recent_witness:
  "fst (search_papers demo_results demo_self demo_now [''agents'', ''reasoning'']) = Inr demo_papers
   \<and> demo_paper ''2401.00002'' ''Two'' 3600000001 \<in> set demo_papers
   \<and> demo_now - hours_back demo_self * 3600000000
       \<le> ArxivPaper.published (demo_paper ''2401.00002'' ''Two'' 3600000001)"
proof -
  have h: "fst (search_papers demo_results demo_self demo_now [''agents'', ''reasoning''])
             = Inr demo_papers"
    by (simp add: demo_run)
  have m: "demo_paper ''2401.00002'' ''Two'' 3600000001 \<in> set demo_papers"
    by (simp add: demo_papers_def)
  from h m search_papers_recent [OF h m] show ?thesis by simp
qed

subsection \<open>Order of the result\<close>

text \<open>
  C3. The sequence returned by \<open>search_papers\<close> is in non-increasing order of
  \<open>published\<close>, and the records of any one instant are in the order in which they stand in
  the dictionary, which is the order of their insertion: the sort is stable. A sequence
  is returned exactly when line 80 gives a cutoff and the loop over the topics ends
  without failure (\<open>search_papers_returns\<close> is the other direction).
\<close>

theorem search_papers_newest_first_stable:
  assumes "cutoff_time now (hours_back self) = Inr cutoff"
    and "search_topics results self cutoff topics [] [] = (Inr all_papers, calls)"
  shows "\<exists>ps. search_papers results self now topics = (Inr ps, calls)
           \<and> newest_first_papers ps
           \<and> (\<forall>t. filter (\<lambda>p. ArxivPaper.published p = t) ps
                    = filter (\<lambda>p. ArxivPaper.published p = t) (dict_values all_papers))"
  using assms
  by (simp add: search_papers_def newest_first_sorted_reverse sorted_reverse_stable)

theorem search_papers_newest_first_stable_witness:
  "cutoff_time demo_now (hours_back demo_self) = Inr 3600000000
   \<and> search_topics demo_results demo_self 3600000000
     [''agents'', ''reasoning''] [] [] = (Inr demo_dict, demo_calls)
   \<and> (\<exists>ps. search_papers demo_results demo_self demo_now [''agents'', ''reasoning'']
              = (Inr ps, demo_calls)
           \<and> newest_first_papers ps
           \<and> (\<forall>t. filter (\<lambda>p. ArxivPaper.published p = t) ps
                    = filter (\<lambda>p. ArxivPaper.published p = t) (dict_values demo_dict)))"
  using search_papers_newest_first_stable [OF demo_cutoff demo_topics_run]
    demo_cutoff demo_topics_run
  by simp


subsection \<open>Early termination at the cutoff\<close>

text \<open>
  C4, as the code has it. Let the topics before \<open>t\<close> have been processed without
  failure, and let the generator the collaborator returns for \<open>t\<close> hold a result older
  than the cutoff. Then the generator is its maximal prefix of results at or after the
  cutoff, followed by a result \<open>old\<close> older than the cutoff and a remainder \<open>rest\<close>; when
  the generator is sorted newest first, the prefix holds all its results at or after the
  cutoff. The loop runs its body on exactly the results of the prefix, in order: each is
  stored unless its identifier is already in the dictionary. It leaves the generator at
  \<open>rest\<close>, so nothing after \<open>old\<close> is consumed, and the run goes on with the remaining
  topics from there.
\<close>

theorem search_topics_cutoff_prefix:
  assumes "search_topics results self cutoff ts1 d0 c0 = (Inr d1, c1)"
    and "results (map fst c1) (search_for self t) = s"
    and "\<exists>r\<in>set (items s). \<not> recent cutoff r"
  shows "\<exists>old rest.
           s = emit (takeWhile (recent cutoff) (items s)) (Yield old rest)
           \<and> \<not> recent cutoff old
           \<and> (newest_first (items s) \<longrightarrow>
                 takeWhile (recent cutoff) (items s) = filter (recent cutoff) (items s))
           \<and> search_topics results self cutoff (ts1 @ t # ts2) d0 c0 =
               search_topics results self cutoff ts2
                 (fst (foldl add_result (d1, 0) (takeWhile (recent cutoff) (items s))))
                 (c1 @ [(search_for self t, rest)])"
proof -
  let ?pre = "takeWhile (recent cutoff) (items s)"
  from first_old [OF assms(3)] obtain old rest where
    s: "s = emit ?pre (Yield old rest)" and old: "\<not> recent cutoff old" by blast
  have pre: "\<forall>r\<in>set ?pre. recent cutoff r"
    by (auto dest: set_takeWhileD)
  have it: "items s = ?pre @ old # items rest"
    by (subst s) (simp add: items_emit)
  have flt: "?pre = filter (recent cutoff) (items s)" if "newest_first (items s)"
  proof -
    from that it have "newest_first (?pre @ old # items rest)" by simp
    from newest_first_filter [OF this pre old] it show ?thesis by simp
  qed
  have "consume cutoff s (d1, 0) = (Inr (foldl add_result (d1, 0) ?pre), rest)"
    by (subst s) (rule consume_emit_old [OF pre old])
  then have "search_topics results self cutoff (t # ts2) d1 c1 =
      search_topics results self cutoff ts2 (fst (foldl add_result (d1, 0) ?pre))
        (c1 @ [(search_for self t, rest)])"
    by (simp add: assms(2) Let_def split: prod.splits)
  then have "search_topics results self cutoff (ts1 @ t # ts2) d0 c0 =
      search_topics results self cutoff ts2 (fst (foldl add_result (d1, 0) ?pre))
        (c1 @ [(search_for self t, rest)])"
    by (simp add: search_topics_append assms(1))
  with s old flt show ?thesis by blast
qed

text \<open>
  The theorem on the example, with the topic \<open>agents\<close> after the topic \<open>reasoning\<close>:
  its generator is sorted and holds two recent results, an old one, and a failure behind
  it that is never reached.
\<close>

theorem search_topics_cutoff_prefix_witness:
  "search_topics demo_results demo_self 3600000000
     [''reasoning''] [] [] = (Inr demo_dict2, demo_calls2)
   \<and> demo_results (map fst demo_calls2) (search_for demo_self ''agents'') = demo_agents
   \<and> (\<exists>r\<in>set (items demo_agents).
         \<not> recent 3600000000 r)
   \<and> (\<exists>old rest.
         demo_agents =
           emit (takeWhile (recent 3600000000)
                   (items demo_agents)) (Yield old rest)
         \<and> \<not> recent 3600000000 old
         \<and> (newest_first (items demo_agents) \<longrightarrow>
               takeWhile (recent 3600000000)
                   (items demo_agents)
                 = filter (recent 3600000000)
                     (items demo_agents))
         \<and> search_topics demo_results demo_self 3600000000
               ([''reasoning''] @ ''agents'' # []) [] [] =
             search_topics demo_results demo_self 3600000000
               []
               (fst (foldl add_result (demo_dict2, 0)
                  (takeWhile (recent 3600000000)
                     (items demo_agents))))
               (demo_calls2 @ [(search_for demo_self ''agents'', rest)]))"
proof -
  have h1: "search_topics demo_results demo_self 3600000000
              [''reasoning''] [] [] = (Inr demo_dict2, demo_calls2)"
    by code_simp
  have h2: "demo_results (map fst demo_calls2) (search_for demo_self ''agents'') = demo_agents"
    by code_simp
  have h3: "\<exists>r\<in>set (items demo_agents).
              \<not> recent 3600000000 r"
    by code_simp
  from h1 h2 h3 search_topics_cutoff_prefix [OF h1 h2 h3, where ?ts2.0 = "[]"]
  show ?thesis by simp
qed

text \<open>
  C4 as it is stated fails where the prefix holds an identifier twice. The stream of
  the one topic is sorted, its maximal prefix at or after the cutoff is \<open>twin_a\<close>,
  \<open>twin_b\<close>, and an older result follows; the sequence returned holds the record of
  \<open>twin_a\<close> alone, and the record of \<open>twin_b\<close> is a different one.
\<close>

theorem search_papers_cutoff_prefix_counterexample:
  "newest_first (items twin_stream)
   \<and> takeWhile (recent 3600000000) (items twin_stream)
       = [twin_a, twin_b]
   \<and> items twin_stream = [twin_a, twin_b, twin_old]
   \<and> \<not> recent 3600000000 twin_old
   \<and> fst (search_papers twin_results demo_self demo_now [''gauge''])
       = Inr [make_paper ''0301001'' twin_a]
   \<and> make_paper (extract_arxiv_id (entry_id twin_b)) twin_b \<noteq> make_paper ''0301001'' twin_a"
  by code_simp

subsection \<open>The identifier\<close>

text \<open>
  C5, as the code has it. The identifier is the part of the trailing path segment of the
  entry id (the text after its last \<open>/\<close>) before the first \<open>v\<close> of that segment, the whole
  segment when it has no \<open>v\<close>; removing \<open>abs/\<close> changes nothing, the segment having no
  \<open>/\<close>. For a segment that is an identifier without \<open>v\<close>, alone or followed by \<open>v\<close> and a
  version, the result is the identifier. An entry id that ends in \<open>/1234.5678v2\<close>, in
  \<open>/1234.5678\<close> or in \<open>/abs/1234.5678v1\<close> gives \<open>1234.5678\<close>.
\<close>

theorem extract_arxiv_id_first_v:
  "extract_arxiv_id eid =
     takeWhile (\<lambda>c. c \<noteq> CHR ''v'') (rev (takeWhile (\<lambda>c. c \<noteq> CHR ''/'') (rev eid)))
   \<and> (CHR ''/'' \<notin> set ident \<and> CHR ''v'' \<notin> set ident \<and> CHR ''/'' \<notin> set ver \<longrightarrow>
        extract_arxiv_id (p @ ''/'' @ ident) = ident
        \<and> extract_arxiv_id (p @ ''/'' @ ident @ ''v'' @ ver) = ident)
   \<and> extract_arxiv_id (p @ ''/1234.5678v2'') = ''1234.5678''
   \<and> extract_arxiv_id (p @ ''/1234.5678'') = ''1234.5678''
   \<and> extract_arxiv_id (p @ ''/abs/1234.5678v1'') = ''1234.5678''"
proof -
  have seg: "rev (takeWhile (\<lambda>c. c \<noteq> CHR ''/'') (rev (p @ CHR ''/'' # w))) = w"
    if "CHR ''/'' \<notin> set w" for p w
    using that by (simp add: takeWhile_append takeWhile_eq_all_conv [THEN iffD2])
  have v1: "takeWhile (\<lambda>c. c \<noteq> CHR ''v'') w = w" if "CHR ''v'' \<notin> set w" for w
    using that by (intro takeWhile_eq_all_conv [THEN iffD2]) auto
  have v2: "takeWhile (\<lambda>c. c \<noteq> CHR ''v'') (w @ CHR ''v'' # u) = w"
    if "CHR ''v'' \<notin> set w" for w u
    using that by (simp add: takeWhile_append v1)
  have a: "extract_arxiv_id (p @ ''/'' @ w) = w"
    if "CHR ''/'' \<notin> set w" "CHR ''v'' \<notin> set w" for p w
    using that seg [of w p] by (simp add: extract_arxiv_id_eq v1)
  have b: "extract_arxiv_id (p @ ''/'' @ w @ ''v'' @ u) = w"
    if "CHR ''/'' \<notin> set w" "CHR ''v'' \<notin> set w" "CHR ''/'' \<notin> set u" for p w u
    using that seg [of "w @ CHR ''v'' # u" p] by (simp add: extract_arxiv_id_eq v2)
  have c1: "extract_arxiv_id (p @ ''/1234.5678v2'') = ''1234.5678''"
    using b [of "''1234.5678''" "''2''" p] by simp
  have c2: "extract_arxiv_id (p @ ''/1234.5678'') = ''1234.5678''"
    using a [of "''1234.5678''" p] by simp
  have c3: "extract_arxiv_id (p @ ''/abs/1234.5678v1'') = ''1234.5678''"
    using b [of "''1234.5678''" "''1''" "p @ ''/abs''"] by simp
  from a b c1 c2 c3 show ?thesis by (simp add: extract_arxiv_id_eq)
qed

theorem extract_arxiv_id_first_v_witness:
  "CHR ''/'' \<notin> set ''2401.00001'' \<and> CHR ''v'' \<notin> set ''2401.00001'' \<and> CHR ''/'' \<notin> set ''12''
   \<and> extract_arxiv_id ''http://arxiv.org/abs/2401.00001'' = ''2401.00001''
   \<and> extract_arxiv_id ''http://arxiv.org/abs/2401.00001v12'' = ''2401.00001''"
  using extract_arxiv_id_first_v
    [of "''http://arxiv.org/abs/2401.00001''" "''2401.00001''" "''12''" "''http://arxiv.org/abs''"]
  by simp

text \<open>
  C5 as it is stated fails on a trailing segment with a \<open>v\<close> before its version suffix:
  the code cuts at the first \<open>v\<close>, the procedure of the specification removes the suffix
  \<open>v2\<close> only.
\<close>

theorem extract_arxiv_id_counterexample:
  "extract_arxiv_id ''http://arxiv.org/abs/survey.2301v2'' = ''sur''
   \<and> spec_arxiv_id ''http://arxiv.org/abs/survey.2301v2'' = ''survey.2301''"
  by code_simp


subsection \<open>One record for an identifier\<close>

text \<open>
  C6, as the code has it. Call a result accepted when the loop over its topic's
  generator reaches it before the first result older than the cutoff, so that the loop
  body runs on it; \<open>encountered\<close> lists the accepted results in the order of the topics
  and, within a topic, of the generator. For every identifier, the records of the
  returned sequence with that identifier are: none, when no accepted result normalizes
  to it; exactly one otherwise, built from the first accepted result that does. Later
  results with the identifier are skipped and never overwrite it.
\<close>

theorem search_papers_first_occurrence:
  assumes "fst (search_papers results self now topics) = Inr ps"
  shows "filter (\<lambda>p. arxiv_id p = k) ps =
           (case find (\<lambda>r. extract_arxiv_id (entry_id r) = k)
                   (encountered results self (now - hours_back self * 3600000000) topics []) of
              None \<Rightarrow> [] | Some r \<Rightarrow> [make_paper k r])"
proof -
  let ?rs = "encountered results self (now - hours_back self * 3600000000) topics []"
  let ?d = "foldl offer [] ?rs"
  have key: "arxiv_id (snd x) = fst x" if "x \<in> set ?d" for x
  proof -
    obtain a p where x: "x = (a, p)" by (cases x)
    with that final_dict_entry [of a p ?rs] show ?thesis by (auto simp: make_paper_def)
  qed
  have "filter (\<lambda>p. arxiv_id p = k) (dict_values ?d) = map snd (filter (\<lambda>x. fst x = k) ?d)"
    unfolding dict_values_def filter_map o_def
    by (rule arg_cong [where f = "map snd"], rule filter_cong) (simp_all add: key)
  also have "\<dots> = (case map_of ?d k of None \<Rightarrow> [] | Some v \<Rightarrow> [v])"
    by (simp add: filter_key_alist distinct_foldl_offer split: option.splits)
  also have "\<dots> = (case find (\<lambda>r. extract_arxiv_id (entry_id r) = k) ?rs of
                      None \<Rightarrow> [] | Some r \<Rightarrow> [make_paper k r])"
    by (simp add: map_of_foldl_offer split: option.splits)
  finally have f: "filter (\<lambda>p. arxiv_id p = k) (dict_values ?d) =
      (case find (\<lambda>r. extract_arxiv_id (entry_id r) = k) ?rs of
         None \<Rightarrow> [] | Some r \<Rightarrow> [make_paper k r])" .
  have "filter (\<lambda>p. arxiv_id p = k) ps
          = sorted_reverse ArxivPaper.published (filter (\<lambda>p. arxiv_id p = k) (dict_values ?d))"
    by (simp add: search_papers_Inr [OF assms] filter_sorted_reverse)
  also have "\<dots> = filter (\<lambda>p. arxiv_id p = k) (dict_values ?d)"
    by (rule sorted_reverse_short) (simp add: f split: option.splits)
  finally show ?thesis by (simp add: f)
qed

text \<open>
  In the example both topics hold a version of the paper 2401.00001; the record
  returned is the one of the first topic, with the title \<open>One\<close>.
\<close>

theorem search_papers_first_occurrence_witness:
  "fst (search_papers demo_results demo_self demo_now [''agents'', ''reasoning'']) = Inr demo_papers
   \<and> filter (\<lambda>p. arxiv_id p = ''2401.00001'') demo_papers
       = [make_paper ''2401.00001''
            (demo_result ''http://arxiv.org/abs/2401.00001v2'' ''One'' 3600000002)]"
proof -
  have h: "fst (search_papers demo_results demo_self demo_now [''agents'', ''reasoning''])
             = Inr demo_papers"
    by (simp add: demo_run)
  have e: "find (\<lambda>r. extract_arxiv_id (entry_id r) = ''2401.00001'')
             (encountered demo_results demo_self (demo_now - hours_back demo_self * 3600000000)
                [''agents'', ''reasoning''] [])
           = Some (demo_result ''http://arxiv.org/abs/2401.00001v2'' ''One'' 3600000002)"
    by code_simp
  have "filter (\<lambda>p. arxiv_id p = ''2401.00001'') demo_papers =
          (case Some (demo_result ''http://arxiv.org/abs/2401.00001v2'' ''One'' 3600000002) of
             None \<Rightarrow> [] | Some r \<Rightarrow> [make_paper ''2401.00001'' r])"
    using search_papers_first_occurrence [OF h, of "''2401.00001''"] by (simp only: e)
  with h show ?thesis by simp
qed

text \<open>
  C6 as it is stated fails when the shared identifier occurs only in results older than
  the cutoff: both topics hold \<open>stale\<close>, which normalizes to \<open>1234.5678\<close>, and the
  sequence returned is empty.
\<close>

theorem search_papers_first_occurrence_counterexample:
  "stale \<in> set (items (stale_results [] (search_for demo_self ''agents'')))
   \<and> stale \<in> set (items (stale_results [search_for demo_self ''agents'']
                           (search_for demo_self ''reasoning'')))
   \<and> extract_arxiv_id (entry_id stale) = ''1234.5678''
   \<and> fst (search_papers stale_results demo_self demo_now [''agents'', ''reasoning'']) = Inr []"
  by code_simp

subsection \<open>Failures of the collaborator\<close>

text \<open>
  C7. Let line 80 have given the cutoff and the topics before \<open>t\<close> have been processed
  without failure, so that the collaborator is asked for \<open>t\<close>, and let the
  generator for \<open>t\<close> raise \<open>e\<close> after yielding results that are all at or after the cutoff,
  so that the loop reaches the failure. Then \<open>search_papers\<close> ends with the failure \<open>e\<close>
  itself and no sequence of records, and the collaborator has received the searches for
  the topics up to \<open>t\<close> only: the topics after \<open>t\<close> are not processed.
\<close>

theorem search_papers_propagates_failure:
  assumes "cutoff_time now (hours_back self) = Inr cutoff"
    and "search_topics results self cutoff ts1 [] [] = (Inr d1, c1)"
    and "results (map fst c1) (search_for self t) = emit pre (Raise e)"
    and "\<forall>r\<in>set pre. recent cutoff r"
  shows "search_papers results self now (ts1 @ t # ts2) =
           (Inl e, c1 @ [(search_for self t, Exhausted)])
         \<and> map fst (snd (search_papers results self now (ts1 @ t # ts2))) =
             map (search_for self) (ts1 @ [t])"
proof -
  let ?c = cutoff
  have "consume ?c (results (map fst c1) (search_for self t)) (d1, 0) = (Inl e, Exhausted)"
    by (simp add: assms(3) consume_emit_Raise [OF assms(4)])
  then have "search_topics results self ?c (t # ts2) d1 c1 =
      (Inl e, c1 @ [(search_for self t, Exhausted)])"
    by (simp add: Let_def)
  then have "search_topics results self ?c (ts1 @ t # ts2) [] [] =
      (Inl e, c1 @ [(search_for self t, Exhausted)])"
    by (simp add: search_topics_append assms(2))
  then have run: "search_papers results self now (ts1 @ t # ts2) =
      (Inl e, c1 @ [(search_for self t, Exhausted)])"
    by (simp add: search_papers_def assms(1))
  from search_topics_calls [OF assms(2)] have "map fst c1 = map (search_for self) ts1" by simp
  with run show ?thesis by simp
qed

text \<open>
  In the example the topic \<open>flaky\<close> comes between the two others: its generator yields
  a recent result and raises. The two records of the first topic and the one of \<open>flaky\<close>
  are not returned, and \<open>reasoning\<close> is never searched.
\<close>

theorem search_papers_propagates_failure_witness:
  "cutoff_time demo_now (hours_back demo_self) = Inr 3600000000
   \<and> search_topics demo_results demo_self 3600000000
     [''agents''] [] [] = (Inr demo_dict1, demo_calls1)
   \<and> demo_results (map fst demo_calls1) (search_for demo_self ''flaky'')
       = emit [demo_result ''http://arxiv.org/abs/2401.00004v1'' ''Four'' 3600000005]
           (Raise (ArxivError ''HTTP 503''))
   \<and> recent 3600000000
         (demo_result ''http://arxiv.org/abs/2401.00004v1'' ''Four'' 3600000005)
   \<and> search_papers demo_results demo_self demo_now ([''agents''] @ ''flaky'' # [''reasoning''])
       = (Inl (ArxivError ''HTTP 503''),
          demo_calls1 @ [(search_for demo_self ''flaky'', Exhausted)])
   \<and> map fst (snd (search_papers demo_results demo_self demo_now
                      ([''agents''] @ ''flaky'' # [''reasoning''])))
       = map (search_for demo_self) ([''agents''] @ [''flaky''])"
proof -
  have h2: "demo_results (map fst demo_calls1) (search_for demo_self ''flaky'')
              = emit [demo_result ''http://arxiv.org/abs/2401.00004v1'' ''Four'' 3600000005]
                  (Raise (ArxivError ''HTTP 503''))"
    by code_simp
  have h3: "\<forall>r\<in>set [demo_result ''http://arxiv.org/abs/2401.00004v1'' ''Four'' 3600000005].
              recent 3600000000 r"
    by code_simp
  from h3 have r: "recent 3600000000
                     (demo_result ''http://arxiv.org/abs/2401.00004v1'' ''Four'' 3600000005)"
    by simp
  from demo_cutoff demo_first_topic_run h2 r
    search_papers_propagates_failure
      [OF demo_cutoff demo_first_topic_run h2 h3, where ?ts2.0 = "[''reasoning'']"]
  show ?thesis by blast
qed

subsection \<open>The empty topic list\<close>

text \<open>
  C8, as the code has it. \<open>search_papers\<close> applied to the empty topic list issues no
  query to the collaborator. It returns the empty sequence and raises no error when the
  cutoff of line 80 can be computed: the window is a timedelta, of at most 999999999
  days in magnitude, and \<open>now\<close> minus the window is a datetime, between the years 1 and
  9999. Otherwise it raises \<^verbatim>\<open>OverflowError\<close>, the topic list being empty or not.
\<close>

theorem search_papers_empty_topics:
  "(if \<bar>hours_back self div 24\<bar> \<le> 999999999
       \<and> datetime_min \<le> now - hours_back self * 3600000000
       \<and> now - hours_back self * 3600000000 \<le> datetime_max
    then search_papers results self now [] = (Inr [], [])
    else search_papers results self now topics = (Inl OverflowError, []))"
  by (simp add: search_papers_def cutoff_time_def timedelta_hours_def datetime_sub_def
      sorted_reverse_def dict_values_def)

theorem search_papers_empty_topics_witness:
  "\<bar>hours_back demo_self div 24\<bar> \<le> 999999999
   \<and> datetime_min \<le> demo_now - hours_back demo_self * 3600000000
   \<and> demo_now - hours_back demo_self * 3600000000 \<le> datetime_max
   \<and> search_papers demo_results demo_self demo_now [] = (Inr [], [])"
proof -
  have h: "\<bar>hours_back demo_self div 24\<bar> \<le> 999999999
           \<and> datetime_min \<le> demo_now - hours_back demo_self * 3600000000
           \<and> demo_now - hours_back demo_self * 3600000000 \<le> datetime_max"
    by code_simp
  from h search_papers_empty_topics [of demo_self demo_now demo_results "[]"]
  show ?thesis by simp
qed

text \<open>
  C8 as it is stated fails for a client whose window reaches back before the year 1:
  with 20000000 hours and the clock at 2026-11-03 (or at the two hours after the epoch
  of the example) the call on the empty topic list ends with \<^verbatim>\<open>OverflowError\<close>.
\<close>

theorem search_papers_empty_topics_counterexample:
  "hours_back far_self = 20000000
   \<and> search_papers demo_results far_self 1793664000000000 [] = (Inl OverflowError, [])
   \<and> search_papers demo_results far_self demo_now [] = (Inl OverflowError, [])"
  by code_simp

subsection \<open>The fields of a record\<close>

text \<open>
  C9. Every record of the sequence returned by \<open>search_papers\<close> is built from a raw
  result \<open>r\<close> of the generator of one of the topics: its abstract is the summary of \<open>r\<close>
  with every line feed replaced by one space, its authors are the authors of \<open>r\<close> as
  strings, and its title, PDF URL, published instant and categories are those of \<open>r\<close>.
\<close>

theorem search_papers_fields:
  assumes "fst (search_papers results self now topics) = Inr ps" and "p \<in> set ps"
  shows "\<exists>hist topic r. topic \<in> set topics
           \<and> r \<in> set (items (results hist (search_for self topic)))
           \<and> arxiv_id p = extract_arxiv_id (entry_id r)
           \<and> abstract p = map (\<lambda>c. if c = CHR 0x0A then CHR '' '' else c) (summary r)
           \<and> ArxivPaper.title p = Result.title r
           \<and> ArxivPaper.authors p = map str_Author (Result.authors r)
           \<and> ArxivPaper.pdf_url p = Result.pdf_url r
           \<and> ArxivPaper.published p = Result.published r
           \<and> ArxivPaper.categories p = Result.categories r"
proof -
  let ?rs = "encountered results self (now - hours_back self * 3600000000) topics []"
  from assms(2) have "p \<in> snd ` set (foldl offer [] ?rs)"
    unfolding search_papers_Inr [OF assms(1)]
    by (simp add: set_sorted_reverse dict_values_def)
  then obtain k where "(k, p) \<in> set (foldl offer [] ?rs)" by force
  then obtain r where r: "r \<in> set ?rs" and k: "k = extract_arxiv_id (entry_id r)"
    and p: "p = make_paper k r"
    using final_dict_entry by blast
  from encountered_items [OF r] obtain h t where
    "t \<in> set topics" "r \<in> set (items (results h (search_for self t)))" by blast
  moreover have "abstract p = map (\<lambda>c. if c = CHR 0x0A then CHR '' '' else c) (summary r)"
    by (simp add: p make_paper_def str_replace_char)
  ultimately show ?thesis
    by (intro exI [of _ h] exI [of _ t] exI [of _ r]) (simp add: p k make_paper_def)
qed

theorem search_papers_fields_witness:
  "fst (search_papers demo_results demo_self demo_now [''agents'', ''reasoning'']) = Inr demo_papers
   \<and> demo_paper ''2401.00003'' ''Three'' 3600000002 \<in> set demo_papers
   \<and> (\<exists>hist topic r. topic \<in> set [''agents'', ''reasoning'']
         \<and> r \<in> set (items (demo_results hist (search_for demo_self topic)))
         \<and> arxiv_id (demo_paper ''2401.00003'' ''Three'' 3600000002)
             = extract_arxiv_id (entry_id r)
         \<and> abstract (demo_paper ''2401.00003'' ''Three'' 3600000002)
             = map (\<lambda>c. if c = CHR 0x0A then CHR '' '' else c) (summary r)
         \<and> ArxivPaper.title (demo_paper ''2401.00003'' ''Three'' 3600000002) = Result.title r
         \<and> ArxivPaper.authors (demo_paper ''2401.00003'' ''Three'' 3600000002)
             = map str_Author (Result.authors r)
         \<and> ArxivPaper.pdf_url (demo_paper ''2401.00003'' ''Three'' 3600000002)
             = Result.pdf_url r
         \<and> ArxivPaper.published (demo_paper ''2401.00003'' ''Three'' 3600000002)
             = Result.published r
         \<and> ArxivPaper.categories (demo_paper ''2401.00003'' ''Three'' 3600000002)
             = Result.categories r)"
proof -
  have h: "fst (search_papers demo_results demo_self demo_now [''agents'', ''reasoning''])
             = Inr demo_papers"
    by (simp add: demo_run)
  have m: "demo_paper ''2401.00003'' ''Three'' 3600000002 \<in> set demo_papers"
    by (simp add: demo_papers_def)
  from h m search_papers_fields [OF h m] show ?thesis by blast
qed

subsection \<open>Falsy constructor arguments\<close>

text \<open>
  C10. In the constructor an override of 0 (or 0.0 for the delay) has the effect of an
  omitted one: each of the three fields falls back to the value of the settings, which
  is 30, 3.0 and 24 for the defaults of \<open>Settings\<close>.
\<close>

theorem init_falsy_is_omitted:
  "init st (Some 0) ds hb = init st None ds hb
   \<and> init st mr (Some 0) hb = init st mr None hb
   \<and> init st mr ds (Some 0) = init st mr ds None
   \<and> max_results (init st (Some 0) ds hb) = arxiv_max_results st
   \<and> delay_seconds (init st mr (Some 0) hb) = arxiv_delay_seconds st
   \<and> hours_back (init st mr ds (Some 0)) = arxiv_hours_back st
   \<and> max_results (init Settings_defaults (Some 0) ds hb) = 30
   \<and> delay_seconds (init Settings_defaults mr (Some 0) hb) = 3.0
   \<and> hours_back (init Settings_defaults mr ds (Some 0)) = 24"
  by (simp add: init_def or_int_def or_float_def Settings_defaults_def Let_def)

end
